theory Spec2Isabelle
  imports Complex_Main
begin

section \<open>The cost-per-search calculator of \<^verbatim>\<open>CPS_Viz_v2.py\<close>\<close>

text \<open>
  The program is one Python file: the function \<^verbatim>\<open>compute_cps\<close> (lines 5 to 21) and the
  Streamlit page \<^verbatim>\<open>main\<close> (lines 23 to 168) that calls it once for the selected number
  of searches and once for every point of a sweep.

  Numbers. The page converts every cost column with \<^verbatim>\<open>astype(float)\<close>, so the program
  computes on IEEE-754 doubles. The embedding idealises them as the real numbers: sums,
  products and quotients are exact, and rounding, infinities and NaN are outside the model.
  The number of searches is a Python \<^verbatim>\<open>int\<close> (the slider and \<^verbatim>\<open>range\<close> both produce
  \<^verbatim>\<open>int\<close>), embedded into the reals where it is divided by.

  Errors. Every exception the source can raise is a value: a result is \<open>py_error + 'a\<close>,
  with \<open>Inl\<close> for the raised exception.
\<close>

subsection \<open>Exceptions and the built-in \<^verbatim>\<open>sum\<close>\<close>

datatype py_error = ValueError | ZeroDivisionError

text \<open>
  \<^verbatim>\<open>sum(xs)\<close> adds the items to the start value 0 from left to right. Over the reals
  the order of the items does not change the sum; over doubles it can change the last
  bits, since every addition rounds. Whether two orders of the same records give the same
  double is therefore a question of rounding, which this model cannot ask: no property
  below compares the results of two orders.
\<close>

definition py_sum :: "real list \<Rightarrow> real" where
  "py_sum xs = foldl (+) 0 xs"

subsection \<open>\<^verbatim>\<open>compute_cps\<close>\<close>

text \<open>
  \<^verbatim>\<open>
  def compute_cps(P_i_list, C_i_list, A_i_list, N_s):
      if not (len(P_i_list) == len(C_i_list) == len(A_i_list)):
          raise ValueError("P_i_list, C_i_list, and A_i_list must be of the same length.")
      total_platform_costs = sum(P_i_list)
      platform_costs_per_search = total_platform_costs / N_s
      api_call_costs_per_search = sum(C_i * A_i for C_i, A_i in zip(C_i_list, A_i_list))
      cps = platform_costs_per_search + api_call_costs_per_search
      return cps
  \<close>
  The three local quantities are definitions of their own, so that the properties of the
  fixed-cost term and of the variable term can be stated. The division raises
  \<^verbatim>\<open>ZeroDivisionError\<close> when \<^verbatim>\<open>N_s\<close> is zero; \<open>compute_cps\<close> tests for that before it
  uses \<open>platform_costs_per_search\<close>, whose HOL division is total.
\<close>

definition total_platform_costs :: "real list \<Rightarrow> real" where
  "total_platform_costs P_i_list = py_sum P_i_list"

definition platform_costs_per_search :: "real list \<Rightarrow> real \<Rightarrow> real" where
  "platform_costs_per_search P_i_list N_s = total_platform_costs P_i_list / N_s"

definition api_call_costs_per_search :: "real list \<Rightarrow> real list \<Rightarrow> real" where
  "api_call_costs_per_search C_i_list A_i_list =
     py_sum (map (\<lambda>(C_i, A_i). C_i * A_i) (zip C_i_list A_i_list))"

definition compute_cps :: "real list \<Rightarrow> real list \<Rightarrow> real list \<Rightarrow> real \<Rightarrow> py_error + real" where
  "compute_cps P_i_list C_i_list A_i_list N_s =
     (if \<not> (length P_i_list = length C_i_list \<and> length C_i_list = length A_i_list)
      then Inl ValueError
      else if N_s = 0 then Inl ZeroDivisionError
      else Inr (platform_costs_per_search P_i_list N_s
                + api_call_costs_per_search C_i_list A_i_list))"

subsection \<open>The built-ins \<^verbatim>\<open>int\<close> and \<^verbatim>\<open>range\<close>\<close>

text \<open>
  \<^verbatim>\<open>int(x)\<close> on a float discards the fractional part (it rounds towards zero); on an
  \<^verbatim>\<open>int\<close> it is the identity.
\<close>

definition py_int :: "real \<Rightarrow> int" where
  "py_int x = (if 0 \<le> x then \<lfloor>x\<rfloor> else \<lceil>x\<rceil>)"

text \<open>
  \<^verbatim>\<open>range(start, stop, step)\<close> raises \<^verbatim>\<open>ValueError\<close> for a zero step. For a positive
  step its items are \<^verbatim>\<open>start, start + step, ...\<close> as long as they are below \<^verbatim>\<open>stop\<close>; for
  a negative step, as long as they are above \<^verbatim>\<open>stop\<close>. \<open>list(range(...))\<close> is the loop
  that collects them.
\<close>

function range_up :: "int \<Rightarrow> int \<Rightarrow> int \<Rightarrow> int list" where
  "range_up i stop step =
     (if 0 < step \<and> i < stop then i # range_up (i + step) stop step else [])"
  by pat_completeness auto
termination
  by (relation "measure (\<lambda>(i, stop, step). nat (stop - i))") auto

function range_down :: "int \<Rightarrow> int \<Rightarrow> int \<Rightarrow> int list" where
  "range_down i stop step =
     (if step < 0 \<and> stop < i then i # range_down (i + step) stop step else [])"
  by pat_completeness auto
termination
  by (relation "measure (\<lambda>(i, stop, step). nat (i - stop))") auto

declare range_up.simps [simp del] range_down.simps [simp del]

definition py_range :: "int \<Rightarrow> int \<Rightarrow> int \<Rightarrow> py_error + int list" where
  "py_range start stop step =
     (if step = 0 then Inl ValueError
      else if 0 < step then Inr (range_up start stop step)
      else Inr (range_down start stop step))"

subsection \<open>The page \<^verbatim>\<open>main\<close>\<close>

text \<open>
  One run of \<^verbatim>\<open>main\<close> reads the widgets and writes to the page. Its input is the state
  of the widgets: the slider \<^verbatim>\<open>N_s\<close> (an \<^verbatim>\<open>int\<close>; the slider keeps it between 1 and
  100000), the checkbox \<^verbatim>\<open>show_cps_range\<close>, the three number inputs \<^verbatim>\<open>N_s_min\<close>,
  \<^verbatim>\<open>N_s_max\<close> and \<^verbatim>\<open>N_s_step\<close> (which have no bounds), and the edited table, a list of
  rows. The source passes the three number inputs through \<^verbatim>\<open>int(...)\<close>, so they are
  modelled as reals, of which the integers are a part.

  The cells of the table are of a type \<open>'c\<close> that the library decides; the conversion
  \<^verbatim>\<open>astype(float)\<close> of one cell is the parameter \<open>to_float\<close>, with \<open>None\<close> where the
  library raises. A column converts when each of its cells does.
\<close>

record 'c platform_row =
  Platform_Name :: string
  Fixed_Cost :: 'c
  Cost_per_API_Call :: 'c
  API_Calls_per_Search :: 'c

record 'c widgets =
  N_s :: int
  show_cps_range :: bool
  N_s_min :: real
  N_s_max :: real
  N_s_step :: real
  edited_df :: "'c platform_row list"

definition astype_float :: "('c \<Rightarrow> real option) \<Rightarrow> 'c list \<Rightarrow> real list option" where
  "astype_float to_float column = those (map to_float column)"

text \<open>
  Lines 100 to 107: the three columns are converted in turn; the first exception ends the
  run with the message of line 106.
\<close>

definition extract_lists ::
  "('c \<Rightarrow> real option) \<Rightarrow> 'c platform_row list \<Rightarrow> (real list \<times> real list \<times> real list) option" where
  "extract_lists to_float df =
     (case astype_float to_float (map Fixed_Cost df) of
        None \<Rightarrow> None
      | Some P_i_list \<Rightarrow>
          (case astype_float to_float (map Cost_per_API_Call df) of
             None \<Rightarrow> None
           | Some C_i_list \<Rightarrow>
               (case astype_float to_float (map API_Calls_per_Search df) of
                  None \<Rightarrow> None
                | Some A_i_list \<Rightarrow> Some (P_i_list, C_i_list, A_i_list))))"

text \<open>
  What a run writes that depends on the computation: the four error messages of
  \<^verbatim>\<open>st.error\<close>, the cost per search of line 124, and the chart of line 156 with its
  series of points and its marker. Titles, explanations and the echo of the input are
  left out.
\<close>

datatype message =
  Enter_at_least_one_platform
  | Error_processing_platform_data
  | Error_during_calculation py_error
  | Ensure_min_less_than_max_and_step_positive

datatype page_event =
  St_error message
  | Cps_markdown real
  | Altair_chart "(int \<times> real) list" "int \<times> real"

text \<open>
  Line 129: \<^verbatim>\<open>N_s_values = list(range(int(N_s_min), int(N_s_max) + 1, int(N_s_step)))\<close>.
\<close>

definition N_s_values :: "real \<Rightarrow> real \<Rightarrow> real \<Rightarrow> py_error + int list" where
  "N_s_values mn mx st = py_range (py_int mn) (py_int mx + 1) (py_int st)"

text \<open>
  Line 130: the list comprehension calls \<open>compute_cps\<close> for each value in turn; the first
  exception ends it.
\<close>

fun cps_values :: "real list \<Rightarrow> real list \<Rightarrow> real list \<Rightarrow> int list \<Rightarrow> py_error + real list" where
  "cps_values P_i_list C_i_list A_i_list [] = Inr []"
| "cps_values P_i_list C_i_list A_i_list (N_s_val # rest) =
     (case compute_cps P_i_list C_i_list A_i_list (of_int N_s_val) of
        Inl e \<Rightarrow> Inl e
      | Inr v \<Rightarrow>
          (case cps_values P_i_list C_i_list A_i_list rest of
             Inl e \<Rightarrow> Inl e
           | Inr vs \<Rightarrow> Inr (v # vs)))"

text \<open>
  Lines 128 to 166, the sweep: inside the \<^verbatim>\<open>try\<close> of line 116, so an exception of
  \<^verbatim>\<open>range\<close> or of \<open>compute_cps\<close> becomes the message of line 168.
\<close>

definition show_range ::
  "real list \<Rightarrow> real list \<Rightarrow> real list \<Rightarrow> int \<Rightarrow> real \<Rightarrow> real \<Rightarrow> real \<Rightarrow> real \<Rightarrow> page_event list" where
  "show_range P_i_list C_i_list A_i_list N cps mn mx st =
     (if mn < mx \<and> st > 0 then
        (case N_s_values mn mx st of
           Inl e \<Rightarrow> [St_error (Error_during_calculation e)]
         | Inr vals \<Rightarrow>
             (case cps_values P_i_list C_i_list A_i_list vals of
                Inl e \<Rightarrow> [St_error (Error_during_calculation e)]
              | Inr cs \<Rightarrow> [Altair_chart (zip vals cs) (N, cps)]))
      else [St_error Ensure_min_less_than_max_and_step_positive])"

definition main :: "('c \<Rightarrow> real option) \<Rightarrow> 'c widgets \<Rightarrow> page_event list" where
  "main to_float w =
     (if edited_df w = [] then [St_error Enter_at_least_one_platform]
      else
        (case extract_lists to_float (edited_df w) of
           None \<Rightarrow> [St_error Error_processing_platform_data]
         | Some (P_i_list, C_i_list, A_i_list) \<Rightarrow>
             (case compute_cps P_i_list C_i_list A_i_list (of_int (N_s w)) of
                Inl e \<Rightarrow> [St_error (Error_during_calculation e)]
              | Inr cps \<Rightarrow>
                  Cps_markdown cps #
                  (if show_cps_range w
                   then show_range P_i_list C_i_list A_i_list (N_s w) cps
                          (N_s_min w) (N_s_max w) (N_s_step w)
                   else []))))"

subsection \<open>The sweep sequence in the words of the specification\<close>

text \<open>
  The specification describes the values of the sweep as the arithmetic sequence
  \<open>min, min + step, ...\<close> that stays at or below \<open>max\<close>. For integers with \<open>min \<le> max\<close>
  and a positive step these are the \<open>(max - min) div step + 1\<close> values below. This
  definition follows the specification, not the source; it is what the source's
  \<open>N_s_values\<close> is compared with.
\<close>

definition spec_sweep_sequence :: "int \<Rightarrow> int \<Rightarrow> int \<Rightarrow> int list" where
  "spec_sweep_sequence mn mx st = map (\<lambda>k. mn + int k * st) [0..<nat ((mx - mn) div st + 1)]"

section \<open>Properties of \<^verbatim>\<open>compute_cps\<close>\<close>

subsection \<open>The left-to-right sum is the mathematical sum\<close>

lemma foldl_plus_start: "foldl (+) a xs = (a::real) + sum_list xs"
  by (induction xs arbitrary: a) simp_all

lemma py_sum_sum_list: "py_sum xs = sum_list xs"
  by (simp add: py_sum_def foldl_plus_start)

lemma sum_list_zip_index:
  "length cs = length as \<Longrightarrow>
   sum_list (map (\<lambda>(c, a). c * a) (zip cs as)) = (\<Sum>i<length cs. cs ! i * as ! (i::nat) :: real)"
proof (induction cs as rule: list_induct2)
  case Nil
  show ?case by simp
next
  case (Cons c cs a as)
  have "(\<Sum>i<Suc (length cs). (c # cs) ! i * (a # as) ! i)
        = c * a + (\<Sum>i<length cs. cs ! i * as ! i)"
    by (simp add: sum.lessThan_Suc_shift del: sum.lessThan_Suc)
  with Cons show ?case by simp
qed

lemma api_call_costs_index:
  "length C = length A \<Longrightarrow> api_call_costs_per_search C A = (\<Sum>i<length C. C ! i * A ! i)"
  by (simp add: api_call_costs_per_search_def py_sum_sum_list sum_list_zip_index)

lemma compute_cps_Inr:
  "length P = length C \<Longrightarrow> length C = length A \<Longrightarrow> N \<noteq> 0 \<Longrightarrow>
   compute_cps P C A N = Inr (platform_costs_per_search P N + api_call_costs_per_search C A)"
  by (simp add: compute_cps_def)

text \<open>
  Claim C1. For lists of fixed costs, per-call costs and calls per search of one length
  and a number of searches other than zero, \<open>compute_cps\<close> returns the sum of the fixed
  costs divided by the number of searches, plus the sum over all positions of the cost
  per call times the calls per search.
\<close>

theorem compute_cps_formula:
  assumes "length P = length C" and "length C = length A" and "N \<noteq> 0"
  shows "compute_cps P C A N = Inr (sum_list P / N + (\<Sum>i<length P. C ! i * A ! i))"
proof -
  have "platform_costs_per_search P N = sum_list P / N"
    by (simp add: platform_costs_per_search_def total_platform_costs_def py_sum_sum_list)
  moreover have "api_call_costs_per_search C A = (\<Sum>i<length P. C ! i * A ! i)"
    using assms(1,2) by (simp add: api_call_costs_index)
  ultimately show ?thesis
    using assms by (simp add: compute_cps_Inr)
qed

theorem compute_cps_formula_witness:
  "length [100, 20::real] = length [1/4, 1/2::real] \<and> length [1/4, 1/2::real] = length [2, 4::real]
   \<and> (10::real) \<noteq> 0
   \<and> compute_cps [100, 20] [1/4, 1/2] [2, 4] 10 = Inr (29/2)"
  using compute_cps_formula [of "[100, 20]" "[1/4, 1/2]" "[2, 4]" 10]
  by (simp add: lessThan_Suc numeral_2_eq_2)

text \<open>
  Claim C6. For the two records with fixed costs 30 and 75, costs per call 0.0088 and 0.02
  and two calls per search each, at 5000 searches: the fixed-cost term is 0.021, the
  variable term is 0.0576 and \<open>compute_cps\<close> returns 0.0786.
\<close>

theorem compute_cps_scenario:
  "platform_costs_per_search [30, 75] 5000 = 21 / 1000
   \<and> api_call_costs_per_search [88 / 10000, 2 / 100] [2, 2] = 576 / 10000
   \<and> compute_cps [30, 75] [88 / 10000, 2 / 100] [2, 2] 5000 = Inr (786 / 10000)"
  by (simp add: compute_cps_def platform_costs_per_search_def total_platform_costs_def
      api_call_costs_per_search_def py_sum_def)

text \<open>
  Claim C9. Called with three empty lists and a number of searches other than zero,
  \<open>compute_cps\<close> raises nothing and returns zero: the length test passes and both sums
  are empty. The calculator has no test for an empty input.
\<close>

theorem compute_cps_empty:
  "N \<noteq> 0 \<Longrightarrow> compute_cps [] [] [] N = Inr 0"
  by (simp add: compute_cps_def platform_costs_per_search_def total_platform_costs_def
      api_call_costs_per_search_def py_sum_def)

theorem compute_cps_empty_witness:
  "(5000::real) \<noteq> 0 \<and> compute_cps [] [] [] 5000 = Inr 0"
  using compute_cps_empty [of 5000] by simp

text \<open>
  Claim C2 says that a number of searches that is zero or negative makes the calculator
  fail. It does not for a negative one: one platform of fixed cost 30 and \<open>-1\<close> searches
  give the value \<open>-30\<close>.
\<close>

theorem compute_cps_negative_volume_counterexample:
  "(-1::real) \<le> 0 \<and> compute_cps [30] [0] [0] (-1) = Inr (-30)"
  by (simp add: compute_cps_def platform_costs_per_search_def total_platform_costs_def
      api_call_costs_per_search_def py_sum_def)

text \<open>
  Claim C2, amended. For lists of one length, \<open>compute_cps\<close> fails exactly when the number
  of searches is zero, and the failure is Python's \<^verbatim>\<open>ZeroDivisionError\<close>; for a negative
  number of searches it returns the value of the formula.
\<close>

theorem compute_cps_nonpositive_volume:
  assumes "length P = length C" and "length C = length A" and "N \<le> 0"
  shows "compute_cps P C A N =
           (if N = 0 then Inl ZeroDivisionError
            else Inr (sum_list P / N + api_call_costs_per_search C A))"
  using assms
  by (simp add: compute_cps_def platform_costs_per_search_def total_platform_costs_def
      py_sum_sum_list)

theorem compute_cps_nonpositive_volume_witness:
  "length [30, 75::real] = length [0, 1/2::real] \<and> length [0, 1/2::real] = length [0, 2::real]
   \<and> (0::real) \<le> 0 \<and> (-5::real) \<le> 0
   \<and> compute_cps [30, 75] [0, 1/2] [0, 2] 0 = Inl ZeroDivisionError
   \<and> compute_cps [30, 75] [0, 1/2] [0, 2] (-5) = Inr (-20)"
  using compute_cps_nonpositive_volume [of "[30, 75]" "[0, 1/2]" "[0, 2]" 0]
    compute_cps_nonpositive_volume [of "[30, 75]" "[0, 1/2]" "[0, 2]" "-5"]
  by (simp add: api_call_costs_per_search_def py_sum_def)

subsection \<open>Linearity\<close>

lemma total_platform_costs_double:
  "total_platform_costs (map (\<lambda>P_i. 2 * P_i) P) = 2 * total_platform_costs P"
  by (simp add: total_platform_costs_def py_sum_sum_list sum_list_const_mult)

text \<open>
  Claim C7. For lists of one length and a positive number of searches \<open>N\<close>: doubling every
  fixed cost doubles the fixed-cost term and leaves the variable term, so the result is
  twice the fixed-cost term plus the variable term; replacing \<open>N\<close> by \<open>2 * N\<close> halves the
  fixed-cost term, and the result is the sum of the fixed costs divided by \<open>2 * N\<close>, plus
  the same variable term. The collection may be empty or not.
\<close>

theorem compute_cps_linear:
  assumes "length P = length C" and "length C = length A" and "0 < N"
  shows "platform_costs_per_search (map (\<lambda>P_i. 2 * P_i) P) N = 2 * platform_costs_per_search P N
       \<and> compute_cps (map (\<lambda>P_i. 2 * P_i) P) C A N
           = Inr (2 * platform_costs_per_search P N + api_call_costs_per_search C A)
       \<and> platform_costs_per_search P (2 * N) = platform_costs_per_search P N / 2
       \<and> compute_cps P C A (2 * N)
           = Inr (platform_costs_per_search P N / 2 + api_call_costs_per_search C A)
       \<and> compute_cps P C A (2 * N)
           = Inr (sum_list P / (2 * N) + api_call_costs_per_search C A)"
proof -
  have dbl: "platform_costs_per_search (map (\<lambda>P_i. 2 * P_i) P) N = 2 * platform_costs_per_search P N"
    by (simp add: platform_costs_per_search_def total_platform_costs_double)
  have half: "platform_costs_per_search P (2 * N) = platform_costs_per_search P N / 2"
    by (simp add: platform_costs_per_search_def)
  have quot: "platform_costs_per_search P (2 * N) = sum_list P / (2 * N)"
    by (simp add: platform_costs_per_search_def total_platform_costs_def py_sum_sum_list)
  have c1: "compute_cps (map (\<lambda>P_i. 2 * P_i) P) C A N
              = Inr (2 * platform_costs_per_search P N + api_call_costs_per_search C A)"
    using assms dbl by (simp add: compute_cps_Inr)
  have c2: "compute_cps P C A (2 * N)
              = Inr (platform_costs_per_search P (2 * N) + api_call_costs_per_search C A)"
    using assms by (simp add: compute_cps_Inr)
  show ?thesis
    using dbl half c1 c2 quot by (simp only: simp_thms)
qed

theorem compute_cps_linear_witness:
  "length [30, 75::real] = length [1/4, 1/2::real] \<and> length [1/4, 1/2::real] = length [2, 4::real]
   \<and> (0::real) < 5
   \<and> platform_costs_per_search [30, 75] 5 = 21
   \<and> platform_costs_per_search [60, 150] 5 = 42
   \<and> platform_costs_per_search [30, 75] 10 = 21 / 2
   \<and> compute_cps [30, 75] [1/4, 1/2] [2, 4] 10 = Inr 13"
  using compute_cps_linear [of "[30, 75]" "[1/4, 1/2]" "[2, 4]" 5]
  by (simp add: platform_costs_per_search_def total_platform_costs_def
      api_call_costs_per_search_def py_sum_def)

section \<open>Properties of the page\<close>

subsection \<open>The extracted lists and the sweep\<close>

lemma those_map_length: "those (map f xs) = Some ys \<Longrightarrow> length ys = length xs"
  by (induction xs arbitrary: ys) (auto split: option.splits)

lemma astype_float_length: "astype_float to_float column = Some ys \<Longrightarrow> length ys = length column"
  by (simp add: astype_float_def those_map_length)

lemma extract_lists_length:
  assumes "extract_lists to_float df = Some (P, C, A)"
  shows "length P = length df \<and> length C = length df \<and> length A = length df"
  using assms
  by (auto simp: extract_lists_def split: option.splits dest: astype_float_length)

lemma cps_values_Inr:
  assumes "length P = length C" and "length C = length A" and "0 \<notin> set vals"
  shows "cps_values P C A vals
           = Inr (map (\<lambda>n. platform_costs_per_search P (of_int n) + api_call_costs_per_search C A) vals)"
  using assms(3)
proof (induction vals)
  case Nil
  show ?case by simp
next
  case (Cons n vals)
  then have "n \<noteq> 0" and "0 \<notin> set vals" by auto
  with Cons.IH assms(1,2) show ?case
    by (simp add: compute_cps_Inr)
qed

lemma cps_values_zero:
  assumes "length P = length C" and "length C = length A" and "0 \<in> set vals"
  shows "cps_values P C A vals = Inl ZeroDivisionError"
  using assms(3)
proof (induction vals)
  case Nil
  then show ?case by simp
next
  case (Cons n vals)
  show ?case
  proof (cases "n = 0")
    case True
    with assms(1,2) show ?thesis by (simp add: compute_cps_def)
  next
    case False
    with Cons have "cps_values P C A vals = Inl ZeroDivisionError" by simp
    with False assms(1,2) show ?thesis by (simp add: compute_cps_Inr)
  qed
qed

lemma div_step_le_0: "0 < s \<Longrightarrow> x < s \<Longrightarrow> (x::int) div s \<le> 0"
  by (metis div_pos_pos_trivial linorder_not_less order_refl pos_imp_zdiv_neg_iff order_less_imp_le)

lemma range_up_arith:
  "0 < s \<Longrightarrow> range_up i stop s = map (\<lambda>k. i + int k * s) [0..<nat ((stop - i + s - 1) div s)]"
proof (induction i stop s rule: range_up.induct)
  case (1 i stop s)
  show ?case
  proof (cases "i < stop")
    case False
    with 1(2) have "(stop - i + s - 1) div s \<le> 0"
      by (intro div_step_le_0) auto
    with False show ?thesis
      by (simp add: range_up.simps)
  next
    case True
    define m where "m = nat ((stop - i - 1) div s)"
    have q: "(stop - i + s - 1) div s = (stop - i - 1) div s + 1"
      using 1(2) by (metis add.commute add_diff_eq diff_add_eq div_add_self1 less_irrefl)
    have nonneg: "0 \<le> (stop - i - 1) div s"
      using True 1(2) by (simp add: pos_imp_zdiv_nonneg_iff)
    have n: "nat ((stop - i + s - 1) div s) = Suc m"
      using q nonneg by (simp add: m_def nat_add_distrib)
    have "(stop - (i + s) + s - 1) div s = (stop - i - 1) div s"
      by (simp add: algebra_simps)
    with 1 True have IH: "range_up (i + s) stop s = map (\<lambda>k. i + s + int k * s) [0..<m]"
      by (simp add: m_def)
    have "map (\<lambda>k. i + int k * s) [0..<Suc m] = i # map (\<lambda>k. i + int (Suc k) * s) [0..<m]"
      by (simp add: upt_conv_Cons map_Suc_upt [symmetric] del: upt_Suc)
    also have "map (\<lambda>k. i + int (Suc k) * s) [0..<m] = map (\<lambda>k. i + s + int k * s) [0..<m]"
      by (simp add: algebra_simps)
    finally show ?thesis
      using True 1(2) IH n by (simp add: range_up.simps [of i])
  qed
qed

lemma py_int_of_int: "py_int (of_int n) = n"
  by (simp add: py_int_def)

lemma N_s_values_of_int:
  assumes "0 < s"
  shows "N_s_values (of_int a) (of_int b) (of_int s) = Inr (spec_sweep_sequence a b s)"
proof -
  have "(b + 1 - a + s - 1) div s = (b - a) div s + 1"
    using assms by (metis add.commute add_diff_cancel_right' diff_add_eq div_add_self1 less_irrefl)
  then show ?thesis
    using assms
    by (simp add: N_s_values_def py_int_of_int py_range_def range_up_arith spec_sweep_sequence_def)
qed

lemma spec_sweep_sequence_sorted:
  assumes "0 < s"
  shows "sorted_wrt (<) (spec_sweep_sequence a b s)"
proof -
  have "sorted_wrt (\<lambda>j k. a + int j * s < a + int k * s) [0..<n]" for n
    using assms by (intro sorted_wrt_mono_rel [OF _ sorted_wrt_upt]) simp
  then show ?thesis
    by (simp add: spec_sweep_sequence_def sorted_wrt_map)
qed

lemma spec_sweep_sequence_bounds:
  assumes "0 < s" and "n \<in> set (spec_sweep_sequence a b s)"
  shows "a \<le> n \<and> n \<le> b"
proof -
  from assms(2) obtain k where k: "k < nat ((b - a) div s + 1)" and n: "n = a + int k * s"
    by (auto simp: spec_sweep_sequence_def)
  from k have "int k \<le> (b - a) div s" by linarith
  then have "int k * s \<le> (b - a) div s * s"
    using assms(1) by (simp add: mult_right_mono)
  also have "\<dots> \<le> b - a"
    using assms(1) by (metis mult.commute pos_mod_sign minus_div_mult_eq_mod diff_ge_0_iff_ge)
  finally have "n \<le> b" using n by simp
  moreover have "a \<le> n" using n assms(1) by simp
  ultimately show ?thesis by simp
qed

lemma spec_sweep_sequence_first:
  assumes "0 < s" and "a \<le> b"
  shows "hd (spec_sweep_sequence a b s) = a"
proof -
  have "0 \<le> (b - a) div s"
    using assms by (simp add: pos_imp_zdiv_nonneg_iff)
  then have "nat ((b - a) div s + 1) = Suc (nat ((b - a) div s))"
    by (simp add: nat_add_distrib)
  then show ?thesis
    by (simp add: spec_sweep_sequence_def upt_conv_Cons del: upt_Suc)
qed

lemma spec_sweep_sequence_last:
  assumes "0 < s" and "a \<le> b" and "s dvd (b - a)"
  shows "last (spec_sweep_sequence a b s) = b"
proof -
  have "0 \<le> (b - a) div s"
    using assms by (simp add: pos_imp_zdiv_nonneg_iff)
  then have n: "nat ((b - a) div s + 1) = Suc (nat ((b - a) div s))"
    by (simp add: nat_add_distrib)
  have "(b - a) div s * s = b - a"
    using assms(3) by simp
  with \<open>0 \<le> (b - a) div s\<close> show ?thesis
    by (simp add: spec_sweep_sequence_def n)
qed

lemma show_range_cases:
  assumes "length P = length C" and "length C = length A" and "mn < mx" and "0 < st"
  shows "show_range P C A N cps mn mx st =
     (case py_range (py_int mn) (py_int mx + 1) (py_int st) of
        Inl e \<Rightarrow> [St_error (Error_during_calculation e)]
      | Inr vals \<Rightarrow>
          if 0 \<in> set vals then [St_error (Error_during_calculation ZeroDivisionError)]
          else [Altair_chart
                  (map (\<lambda>n. (n, sum_list P / of_int n + api_call_costs_per_search C A)) vals)
                  (N, cps)])"
proof (cases "py_range (py_int mn) (py_int mx + 1) (py_int st)")
  case (Inl e)
  with assms(3,4) show ?thesis
    by (simp add: show_range_def N_s_values_def)
next
  case (Inr vals)
  show ?thesis
  proof (cases "0 \<in> set vals")
    case True
    with Inr assms show ?thesis
      by (simp add: show_range_def N_s_values_def cps_values_zero)
  next
    case False
    have "zip vals (map (\<lambda>n. platform_costs_per_search P (of_int n) + api_call_costs_per_search C A) vals)
          = map (\<lambda>n. (n, sum_list P / of_int n + api_call_costs_per_search C A)) vals"
      by (simp add: zip_map2 zip_same_conv_map platform_costs_per_search_def
          total_platform_costs_def py_sum_sum_list)
    with False Inr assms show ?thesis
      by (simp add: show_range_def N_s_values_def cps_values_Inr)
  qed
qed

subsection \<open>Empty table and invalid range\<close>

text \<open>
  Claim C3. When the edited table has no row, \<open>main\<close> writes the one message
  \<^verbatim>\<open>Please enter at least one platform.\<close> and returns: no cost per search and no chart
  are written, whatever the other widgets hold. The rejection is in the caller; the
  calculator, given the empty lists, returns zero.
\<close>

theorem main_empty_table:
  assumes "edited_df w = []"
  shows "main to_float w = [St_error Enter_at_least_one_platform]
       \<and> compute_cps [] [] [] 1 = Inr 0"
  using assms
  by (simp add: main_def compute_cps_def platform_costs_per_search_def total_platform_costs_def
      api_call_costs_per_search_def py_sum_def)

theorem main_empty_table_witness:
  "edited_df \<lparr>N_s = 5000, show_cps_range = True, N_s_min = 1000, N_s_max = 10000,
             N_s_step = 500, edited_df = ([] :: real platform_row list)\<rparr> = []
   \<and> main Some \<lparr>N_s = 5000, show_cps_range = True, N_s_min = 1000, N_s_max = 10000,
             N_s_step = 500, edited_df = ([] :: real platform_row list)\<rparr>
       = [St_error Enter_at_least_one_platform]"
  using main_empty_table
    [of "\<lparr>N_s = 5000, show_cps_range = True, N_s_min = 1000, N_s_max = 10000,
          N_s_step = 500, edited_df = ([] :: real platform_row list)\<rparr>" Some]
  by simp

text \<open>
  Claim C4. When the minimum of the sweep is not below its maximum, or the step is not
  positive, the sweep writes the one message \<^verbatim>\<open>Please ensure that Minimum N_s < Maximum
  N_s and N_s Step Size > 0.\<close> and no chart, whatever the lists are: no value of the sweep
  is generated and none is passed to \<open>compute_cps\<close>. A run of \<open>main\<close> that reaches the
  sweep then writes the cost per search of the selected number of searches and that
  message.
\<close>

theorem sweep_invalid_range:
  assumes "N_s_max w \<le> N_s_min w \<or> N_s_step w \<le> 0"
    and "show_cps_range w" and "edited_df w \<noteq> []"
    and "extract_lists to_float (edited_df w) = Some (P, C, A)" and "N_s w \<noteq> 0"
  shows "show_range P' C' A' N cps (N_s_min w) (N_s_max w) (N_s_step w)
           = [St_error Ensure_min_less_than_max_and_step_positive]
       \<and> main to_float w
           = [Cps_markdown (sum_list P / of_int (N_s w) + api_call_costs_per_search C A),
              St_error Ensure_min_less_than_max_and_step_positive]"
proof -
  have range: "show_range P' C' A' N cps (N_s_min w) (N_s_max w) (N_s_step w)
                 = [St_error Ensure_min_less_than_max_and_step_positive]" for P' C' A' N cps
    using assms(1) by (auto simp: show_range_def)
  have len: "length P = length C" "length C = length A"
    using extract_lists_length [OF assms(4)] by simp_all
  have "compute_cps P C A (of_int (N_s w))
          = Inr (sum_list P / of_int (N_s w) + api_call_costs_per_search C A)"
    using len assms(5)
    by (simp add: compute_cps_Inr platform_costs_per_search_def total_platform_costs_def
        py_sum_sum_list)
  then have "main to_float w
           = [Cps_markdown (sum_list P / of_int (N_s w) + api_call_costs_per_search C A),
              St_error Ensure_min_less_than_max_and_step_positive]"
    using assms(2,3,4) by (simp add: main_def range)
  with range show ?thesis by simp
qed

theorem sweep_invalid_range_witness:
  "(N_s_max \<lparr>N_s = 5000, show_cps_range = True, N_s_min = 10000, N_s_max = 1000, N_s_step = 500,
       edited_df = [\<lparr>Platform_Name = ''AWS'', Fixed_Cost = 6::real, Cost_per_API_Call = 1,
                     API_Calls_per_Search = 2\<rparr>]\<rparr>
     \<le> N_s_min \<lparr>N_s = 5000, show_cps_range = True, N_s_min = 10000, N_s_max = 1000, N_s_step = 500,
       edited_df = [\<lparr>Platform_Name = ''AWS'', Fixed_Cost = 6::real, Cost_per_API_Call = 1,
                     API_Calls_per_Search = 2\<rparr>]\<rparr>)
   \<and> extract_lists Some [\<lparr>Platform_Name = ''AWS'', Fixed_Cost = 6::real, Cost_per_API_Call = 1,
                     API_Calls_per_Search = 2\<rparr>] = Some ([6], [1], [2])
   \<and> (5000::int) \<noteq> 0
   \<and> main Some \<lparr>N_s = 5000, show_cps_range = True, N_s_min = 10000, N_s_max = 1000, N_s_step = 500,
       edited_df = [\<lparr>Platform_Name = ''AWS'', Fixed_Cost = 6::real, Cost_per_API_Call = 1,
                     API_Calls_per_Search = 2\<rparr>]\<rparr>
       = [Cps_markdown (5003 / 2500), St_error Ensure_min_less_than_max_and_step_positive]"
proof -
  have e: "extract_lists Some [\<lparr>Platform_Name = ''AWS'', Fixed_Cost = 6::real,
             Cost_per_API_Call = 1, API_Calls_per_Search = 2\<rparr>] = Some ([6], [1], [2])"
    by (simp add: extract_lists_def astype_float_def)
  show ?thesis
    using e sweep_invalid_range
      [of "\<lparr>N_s = 5000, show_cps_range = True, N_s_min = 10000, N_s_max = 1000, N_s_step = 500,
            edited_df = [\<lparr>Platform_Name = ''AWS'', Fixed_Cost = 6::real, Cost_per_API_Call = 1,
                          API_Calls_per_Search = 2\<rparr>]\<rparr>" Some "[6]" "[1]" "[2]"]
    by (simp add: api_call_costs_per_search_def py_sum_def)
qed

subsection \<open>The series of the sweep\<close>

text \<open>
  Claim C5 says that every sweep with a minimum below its maximum and a positive step
  produces the series. It does not when the sweep passes through zero: with the minimum
  \<open>-1\<close>, the maximum 1 and the step 1 the values are \<open>-1, 0, 1\<close>, \<open>compute_cps\<close> raises
  \<^verbatim>\<open>ZeroDivisionError\<close> at 0, and the page shows the message of line 168 and no chart.
\<close>

theorem sweep_through_zero_counterexample:
  "(-1::real) < 1 \<and> (0::real) < 1
   \<and> main Some \<lparr>N_s = 5000, show_cps_range = True, N_s_min = -1, N_s_max = 1, N_s_step = 1,
       edited_df = [\<lparr>Platform_Name = ''AWS'', Fixed_Cost = 6::real, Cost_per_API_Call = 1,
                     API_Calls_per_Search = 2\<rparr>]\<rparr>
       = [Cps_markdown (5003 / 2500), St_error (Error_during_calculation ZeroDivisionError)]"
  by (simp add: main_def extract_lists_def astype_float_def show_range_def N_s_values_def
      py_int_def py_range_def range_up.simps compute_cps_def platform_costs_per_search_def
      total_platform_costs_def api_call_costs_per_search_def py_sum_def)

text \<open>
  Claim C5, amended. For a sweep whose minimum, maximum and step are integers, with the
  minimum below the maximum and a positive step, and whose arithmetic sequence
  \<open>min, min + step, ...\<close> up to \<open>max\<close> does not contain zero (as whenever the minimum is
  positive), and for lists of one length: the chart's series pairs each value of that
  sequence with the result of \<open>compute_cps\<close> there; the values start at the minimum, are
  strictly increasing, stay at or below the maximum and end at the maximum when the step
  divides the distance; the series is as long as the sequence. For the minimum 1000, the
  maximum 10000 and the step 500 the values are the 19 points 1000, 1500, ..., 10000.
\<close>

theorem sweep_series:
  assumes "length P = length C" and "length C = length A"
    and "a < b" and "0 < s" and "0 \<notin> set (spec_sweep_sequence a b s)"
  shows "show_range P C A N cps (of_int a) (of_int b) (of_int s)
           = [Altair_chart
                (map (\<lambda>n. (n, sum_list P / of_int n + api_call_costs_per_search C A))
                   (spec_sweep_sequence a b s))
                (N, cps)]
       \<and> (\<forall>n \<in> set (spec_sweep_sequence a b s).
             compute_cps P C A (of_int n)
               = Inr (sum_list P / of_int n + api_call_costs_per_search C A))
       \<and> length (map (\<lambda>n. (n, sum_list P / of_int n + api_call_costs_per_search C A))
                   (spec_sweep_sequence a b s))
           = length (spec_sweep_sequence a b s)
       \<and> sorted_wrt (<) (spec_sweep_sequence a b s)
       \<and> hd (spec_sweep_sequence a b s) = a
       \<and> (\<forall>n \<in> set (spec_sweep_sequence a b s). n \<le> b)
       \<and> (s dvd (b - a) \<longrightarrow> last (spec_sweep_sequence a b s) = b)
       \<and> N_s_values 1000 10000 500
           = Inr [1000, 1500, 2000, 2500, 3000, 3500, 4000, 4500, 5000, 5500, 6000, 6500, 7000,
                  7500, 8000, 8500, 9000, 9500, 10000]
       \<and> length [1000, 1500, 2000, 2500, 3000, 3500, 4000, 4500, 5000, 5500, 6000, 6500, 7000,
                  7500, 8000, 8500, 9000, 9500, 10000 :: int] = 19"
proof -
  have vals: "py_range (py_int (of_int a)) (py_int (of_int b) + 1) (py_int (of_int s))
                = Inr (spec_sweep_sequence a b s)"
    using N_s_values_of_int [OF assms(4), of a b] by (simp add: N_s_values_def)
  have chart: "show_range P C A N cps (of_int a) (of_int b) (of_int s)
           = [Altair_chart
                (map (\<lambda>n. (n, sum_list P / of_int n + api_call_costs_per_search C A))
                   (spec_sweep_sequence a b s))
                (N, cps)]"
    using assms show_range_cases [of P C A "of_int a" "of_int b" "of_int s" N cps]
    by (simp add: vals)
  have each: "compute_cps P C A (of_int n)
               = Inr (sum_list P / of_int n + api_call_costs_per_search C A)"
    if "n \<in> set (spec_sweep_sequence a b s)" for n
  proof -
    from that assms(5) have "n \<noteq> 0" by auto
    with assms(1,2) show ?thesis
      by (simp add: compute_cps_Inr platform_costs_per_search_def total_platform_costs_def
          py_sum_sum_list)
  qed
  have sorted: "sorted_wrt (<) (spec_sweep_sequence a b s)"
    using assms(4) by (rule spec_sweep_sequence_sorted)
  have first: "hd (spec_sweep_sequence a b s) = a"
    using assms(3,4) by (simp add: spec_sweep_sequence_first)
  have upper: "n \<le> b" if "n \<in> set (spec_sweep_sequence a b s)" for n
    using spec_sweep_sequence_bounds [OF assms(4) that] by simp
  have final: "last (spec_sweep_sequence a b s) = b" if "s dvd (b - a)"
    using assms(3,4) that by (simp add: spec_sweep_sequence_last)
  have example: "N_s_values 1000 10000 500
           = Inr [1000, 1500, 2000, 2500, 3000, 3500, 4000, 4500, 5000, 5500, 6000, 6500, 7000,
                  7500, 8000, 8500, 9000, 9500, 10000]"
    by (simp add: N_s_values_def py_int_def py_range_def range_up.simps)
  show ?thesis
    using chart each sorted first upper final example by simp
qed

theorem sweep_series_witness:
  "length [6::real] = length [1::real] \<and> length [1::real] = length [2::real]
   \<and> (1::int) < 3 \<and> (0::int) < 1 \<and> 0 \<notin> set (spec_sweep_sequence 1 3 1)
   \<and> spec_sweep_sequence 1 3 1 = [1, 2, 3]
   \<and> show_range [6] [1] [2] 5000 (5003 / 2500) 1 3 1
       = [Altair_chart [(1, 8), (2, 5), (3, 4)] (5000, 5003 / 2500)]"
proof -
  have seq: "spec_sweep_sequence 1 3 1 = [1, 2, 3]"
    by code_simp
  show ?thesis
    using sweep_series [of "[6]" "[1]" "[2]" 1 3 1 5000 "5003 / 2500"]
    by (simp add: seq api_call_costs_per_search_def py_sum_def)
qed

lemma py_int_truncates: "\<bar>of_int (py_int x) - x\<bar> < 1 \<and> \<bar>of_int (py_int x) :: real\<bar> \<le> \<bar>x\<bar>"
proof (cases "0 \<le> x")
  case True
  have "0 \<le> \<lfloor>x\<rfloor>" using True by simp
  then have "(0::real) \<le> of_int \<lfloor>x\<rfloor>" by simp
  moreover have "of_int \<lfloor>x\<rfloor> \<le> x" and "x < of_int \<lfloor>x\<rfloor> + 1" by linarith+
  ultimately have "\<bar>of_int \<lfloor>x\<rfloor> - x\<bar> < 1 \<and> \<bar>of_int \<lfloor>x\<rfloor> :: real\<bar> \<le> \<bar>x\<bar>"
    using True by linarith
  with True show ?thesis by (simp add: py_int_def)
next
  case False
  have "\<lceil>x\<rceil> \<le> 0" using False by (simp add: ceiling_le_iff)
  then have "of_int \<lceil>x\<rceil> \<le> (0::real)" by simp
  moreover have "x \<le> of_int \<lceil>x\<rceil>" and "of_int \<lceil>x\<rceil> < x + 1" by linarith+
  ultimately have "\<bar>of_int \<lceil>x\<rceil> - x\<bar> < 1 \<and> \<bar>of_int \<lceil>x\<rceil> :: real\<bar> \<le> \<bar>x\<bar>"
    using False by linarith
  with False show ?thesis by (simp add: py_int_def)
qed

text \<open>
  Claim C10. The sweep passes its minimum, maximum and step through \<^verbatim>\<open>int(...)\<close>, which
  discards the fractional part (the truncated value is within one of the input and not
  larger in absolute value), and the values it generates are those of
  \<^verbatim>\<open>range(int(N_s_min), int(N_s_max) + 1, int(N_s_step))\<close>: for lists of one length, a
  minimum below the maximum and a positive step, the page shows the message of line 168
  when that \<^verbatim>\<open>range\<close> raises (the step truncates to zero) or contains zero, and
  otherwise the chart over exactly these integer values. With 1000.7, 2000.9 and 500.5
  the values are 1000, 1500, 2000.
\<close>

theorem sweep_truncates:
  assumes "length P = length C" and "length C = length A" and "mn < mx" and "0 < st"
  shows "N_s_values mn mx st = py_range (py_int mn) (py_int mx + 1) (py_int st)
       \<and> show_range P C A N cps mn mx st =
           (case py_range (py_int mn) (py_int mx + 1) (py_int st) of
              Inl e \<Rightarrow> [St_error (Error_during_calculation e)]
            | Inr vals \<Rightarrow>
                if 0 \<in> set vals then [St_error (Error_during_calculation ZeroDivisionError)]
                else [Altair_chart
                        (map (\<lambda>n. (n, sum_list P / of_int n + api_call_costs_per_search C A)) vals)
                        (N, cps)])
       \<and> \<bar>of_int (py_int mn) - mn\<bar> < 1 \<and> \<bar>of_int (py_int mn) :: real\<bar> \<le> \<bar>mn\<bar>
       \<and> \<bar>of_int (py_int mx) - mx\<bar> < 1 \<and> \<bar>of_int (py_int mx) :: real\<bar> \<le> \<bar>mx\<bar>
       \<and> \<bar>of_int (py_int st) - st\<bar> < 1 \<and> \<bar>of_int (py_int st) :: real\<bar> \<le> \<bar>st\<bar>
       \<and> N_s_values (10007 / 10) (20009 / 10) (5005 / 10) = Inr [1000, 1500, 2000]"
proof -
  have example: "N_s_values (10007 / 10) (20009 / 10) (5005 / 10) = Inr [1000, 1500, 2000]"
    by (simp add: N_s_values_def py_int_def py_range_def range_up.simps)
  show ?thesis
    using show_range_cases [OF assms, of N cps] py_int_truncates [of mn] py_int_truncates [of mx]
      py_int_truncates [of st] example
    by (simp only: N_s_values_def simp_thms)
qed

theorem sweep_truncates_witness:
  "length [6::real] = length [1::real] \<and> length [1::real] = length [2::real]
   \<and> (3 / 2 :: real) < 7 / 2 \<and> (0::real) < 3 / 2
   \<and> N_s_values (3 / 2) (7 / 2) (3 / 2) = Inr [1, 2, 3]
   \<and> show_range [6] [1] [2] 5000 (5003 / 2500) (3 / 2) (7 / 2) (3 / 2)
       = [Altair_chart [(1, 8), (2, 5), (3, 4)] (5000, 5003 / 2500)]"
proof -
  have r: "py_range (py_int (3 / 2)) (py_int (7 / 2) + 1) (py_int (3 / 2)) = Inr [1, 2, 3]"
    by (simp add: py_int_def py_range_def range_up.simps)
  show ?thesis
    using sweep_truncates [of "[6]" "[1]" "[2]" "3 / 2" "7 / 2" "3 / 2" 5000 "5003 / 2500"]
    by (simp add: r api_call_costs_per_search_def py_sum_def)
qed

end
